theory Spec2Isabelle
  imports Complex_Main "HOL-Library.AList" "HOL-Library.Multiset"
begin

section \<open>Data of the rating comparison script\<close>

text \<open>
  A match as \<open>parse_matches\<close> builds it: a dictionary with the four keys
  \<open>'match'\<close>, \<open>'player1'\<close>, \<open>'player2'\<close> and \<open>'winner'\<close>. The winner is a
  player's name, or the string \<open>NUL\<close> for a draw.
\<close>

record match_rec =
  match_num :: int
  player1 :: string
  player2 :: string
  winner :: string

text \<open>
  A Python dictionary keeps its keys in the order of their first insertion, and an
  assignment to a key that is present replaces the value where it stands. An association
  list with \<open>AList.update\<close> does the same; \<open>map_of\<close> reads it.
\<close>

type_synonym 'v dict = "(string \<times> 'v) list"

text \<open>The values of a history entry are of three Python types.\<close>

datatype pyval = PyInt int | PyStr string | PyFloat real

type_synonym history = "pyval dict list"

text \<open>
  Exceptions. The only one a simulation could meet is the \<open>KeyError\<close> of
  \<open>players[name]\<close>; the two others are the errors the specification names.
\<close>

datatype exn = KeyError | InvalidOutcome | UnsupportedAlgorithm

definition getitem :: "'v dict \<Rightarrow> string \<Rightarrow> exn + 'v" where
  "getitem d k = (case map_of d k of None \<Rightarrow> Inl KeyError | Some v \<Rightarrow> Inr v)"

text \<open>
  A dictionary display \<open>{k1: v1, k2: v2, ...}\<close> stores its items from left to right,
  so a later item with a key already present replaces the earlier value.
\<close>

definition dict_display :: "(string \<times> 'v) list \<Rightarrow> 'v dict" where
  "dict_display items = foldl (\<lambda>d (k, v). AList.update k v d) [] items"

section \<open>Competitor classes\<close>

text \<open>
  The competitor classes come from the \<open>elote\<close> library, which is not part of the
  repository. The simulations use a class through its constructor, the \<open>rating\<close>
  attribute (\<open>rating_of\<close>) and the methods \<open>beat\<close> and \<open>tied\<close>. A method call
  \<open>a.beat(b)\<close> changes the two objects it is given and nothing else, so a method is a
  function from the two states to the two new states. When \<open>a\<close> and \<open>b\<close> are one
  object the call has a single state to change: \<open>beat_alias\<close> and \<open>tied_alias\<close>
  give it.
\<close>

record 's competitor_class =
  construct :: "real \<Rightarrow> 's"
  rating_of :: "'s \<Rightarrow> real"
  beat :: "'s \<Rightarrow> 's \<Rightarrow> 's \<times> 's"
  tied :: "'s \<Rightarrow> 's \<Rightarrow> 's \<times> 's"
  beat_alias :: "'s \<Rightarrow> 's"
  tied_alias :: "'s \<Rightarrow> 's"

text \<open>
  \<open>invoke method method_alias same self other\<close> is the call \<open>self.method(other)\<close>;
  \<open>same\<close> says that the two references are one object. It returns the states of
  \<open>self\<close> and of \<open>other\<close> after the call.
\<close>

definition invoke ::
  "('s \<Rightarrow> 's \<Rightarrow> 's \<times> 's) \<Rightarrow> ('s \<Rightarrow> 's) \<Rightarrow> bool \<Rightarrow> 's \<Rightarrow> 's \<Rightarrow> 's \<times> 's" where
  "invoke method method_alias same self other =
     (if same then (let s = method_alias self in (s, s)) else method self other)"

subsection \<open>The Elo competitor\<close>

record elo =
  elo_rating :: real
  k_factor :: real

text \<open>
  Modelled from the spec: \<open>EloCompetitor\<close> of the \<open>elote\<close> library is missing from
  the sources. Section 4.2 of the specification gives the expected score
  \<open>Ea = 1 / (1 + 10^((Rb - Ra)/400))\<close>, \<open>Eb = 1 - Ea\<close>, the actual scores (1 and 0
  for a decisive match, 0.5 each for a draw) and the update \<open>Ra' = Ra + K (Sa - Ea)\<close>,
  each competitor with its own K. Python floats are taken as real numbers.
\<close>

definition expected_score :: "real \<Rightarrow> real \<Rightarrow> real" where
  "expected_score Ra Rb = 1 / (1 + 10 powr ((Rb - Ra) / 400))"

definition elo_update :: "elo \<Rightarrow> real \<Rightarrow> real \<Rightarrow> elo" where
  "elo_update c S E = c\<lparr>elo_rating := elo_rating c + k_factor c * (S - E)\<rparr>"

definition elo_beat :: "elo \<Rightarrow> elo \<Rightarrow> elo \<times> elo" where
  "elo_beat a b =
     (let Ea = expected_score (elo_rating a) (elo_rating b); Eb = 1 - Ea
      in (elo_update a 1 Ea, elo_update b 0 Eb))"

definition elo_tied :: "elo \<Rightarrow> elo \<Rightarrow> elo \<times> elo" where
  "elo_tied a b =
     (let Ea = expected_score (elo_rating a) (elo_rating b); Eb = 1 - Ea
      in (elo_update a (1/2) Ea, elo_update b (1/2) Eb))"

text \<open>
  Modelled from the spec: the specification does not say what a competitor playing
  itself becomes. Both expected scores of section 4.2 are computed from the state before
  the match, and the two updates are then added to the one rating in turn.
\<close>

definition elo_beat_alias :: "elo \<Rightarrow> elo" where
  "elo_beat_alias a =
     (let Ea = expected_score (elo_rating a) (elo_rating a); Eb = 1 - Ea
      in elo_update (elo_update a 1 Ea) 0 Eb)"

definition elo_tied_alias :: "elo \<Rightarrow> elo" where
  "elo_tied_alias a =
     (let Ea = expected_score (elo_rating a) (elo_rating a); Eb = 1 - Ea
      in elo_update (elo_update a (1/2) Ea) (1/2) Eb)"

definition EloCompetitor :: "real \<Rightarrow> elo competitor_class" where
  "EloCompetitor k =
     \<lparr>construct = (\<lambda>initial_rating. \<lparr>elo_rating = initial_rating, k_factor = k\<rparr>),
      rating_of = elo_rating,
      beat = elo_beat,
      tied = elo_tied,
      beat_alias = elo_beat_alias,
      tied_alias = elo_tied_alias\<rparr>"

section \<open>The simulations\<close>

text \<open>
  \<open>if name not in players: players[name] = CompetitorClass(...)\<close>
\<close>

definition ensure :: "'s competitor_class \<Rightarrow> real \<Rightarrow> string \<Rightarrow> 's dict \<Rightarrow> 's dict" where
  "ensure C initial_rating name players =
     (if map_of players name = None
      then AList.update name (construct C initial_rating) players
      else players)"

text \<open>
  The body of the loop of \<open>run_elo_simulation\<close> and of \<open>run_glicko_simulation\<close>: the
  two bodies differ in the constructor call only, which \<open>construct C\<close> stands for.
  \<open>p1\<close> and \<open>p2\<close> are references into the registry: they are one object exactly when
  the two names are equal, and a method call changes the registry's entries.
\<close>

definition process_match ::
  "'s competitor_class \<Rightarrow> real \<Rightarrow> 's dict \<times> history \<Rightarrow> match_rec \<Rightarrow> exn + 's dict \<times> history" where
  "process_match C initial_rating st m =
     (let players = fst st; history = snd st;
          p1_name = player1 m; p2_name = player2 m; w = winner m;
          players = ensure C initial_rating p1_name players;
          players = ensure C initial_rating p2_name players
      in case getitem players p1_name of Inl e \<Rightarrow> Inl e | Inr p1 \<Rightarrow>
         (case getitem players p2_name of Inl e \<Rightarrow> Inl e | Inr p2 \<Rightarrow>
            (let p1_before = rating_of C p1;
                 p2_before = rating_of C p2;
                 same = (p1_name = p2_name);
                 (p1', p2') =
                    (if w = ''NUL'' then invoke (tied C) (tied_alias C) same p1 p2
                     else if w = p1_name then invoke (beat C) (beat_alias C) same p1 p2
                     else prod.swap (invoke (beat C) (beat_alias C) same p2 p1));
                 players = AList.update p2_name p2' (AList.update p1_name p1' players);
                 entry = dict_display
                   [(''match'', PyInt (match_num m)),
                    (''player1'', PyStr p1_name),
                    (''player2'', PyStr p2_name),
                    (''winner'', PyStr w),
                    (p1_name @ ''_before'', PyFloat p1_before),
                    (p1_name @ ''_after'', PyFloat (rating_of C p1')),
                    (p2_name @ ''_before'', PyFloat p2_before),
                    (p2_name @ ''_after'', PyFloat (rating_of C p2'))]
             in Inr (players, history @ [entry]))))"

fun simulate ::
  "'s competitor_class \<Rightarrow> real \<Rightarrow> match_rec list \<Rightarrow> 's dict \<times> history \<Rightarrow> exn + 's dict \<times> history" where
  "simulate C initial_rating [] st = Inr st"
| "simulate C initial_rating (m # ms) st =
     (case process_match C initial_rating st m of
        Inl e \<Rightarrow> Inl e
      | Inr st' \<Rightarrow> simulate C initial_rating ms st')"

definition run_elo_simulation ::
  "match_rec list \<Rightarrow> real \<Rightarrow> real \<Rightarrow> exn + elo dict \<times> history" where
  "run_elo_simulation matches k initial_rating =
     simulate (EloCompetitor k) initial_rating matches ([], [])"

text \<open>
  \<open>GlickoCompetitor\<close> and \<open>Glicko2Competitor\<close> are classes of the library: they are
  the parameters \<open>G1\<close> and \<open>G2\<close>.
\<close>

definition run_glicko_simulation ::
  "'s competitor_class \<Rightarrow> 's competitor_class \<Rightarrow> match_rec list \<Rightarrow> real \<Rightarrow> int
     \<Rightarrow> exn + 's dict \<times> history" where
  "run_glicko_simulation G1 G2 matches initial_rating glicko_version =
     (let CompetitorClass = (if glicko_version = 1 then G1 else G2)
      in simulate CompetitorClass initial_rating matches ([], []))"

section \<open>Standings\<close>

text \<open>
  \<open>xs.sort(key=key, reverse=True)\<close>: the list is reversed, sorted in ascending order
  of the keys by a stable sort, and reversed again, which is how the interpreter keeps a
  descending sort stable.
\<close>

definition sort_reverse :: "('a \<Rightarrow> real) \<Rightarrow> 'a list \<Rightarrow> 'a list" where
  "sort_reverse key xs = rev (sort_key key (rev xs))"

text \<open>
  The reporters receive the registry by reference. They return it beside their result,
  so that what they do to it can be stated.
\<close>

definition get_final_standings ::
  "'s competitor_class \<Rightarrow> 's dict \<Rightarrow> 's dict \<times> (string \<times> real) list" where
  "get_final_standings C players =
     (let standings = map (\<lambda>(name, p). (name, rating_of C p)) players;
          standings = sort_reverse snd standings
      in (players, standings))"

record standing =
  name :: string
  rating :: real
  rd :: real
  volatility :: real

text \<open>
  \<open>rd_of\<close> and \<open>volatility_of\<close> are the attributes \<open>rd\<close> and \<open>volatility\<close> of a
  Glicko-2 competitor.
\<close>

definition get_glicko2_standings_with_uncertainty ::
  "'s competitor_class \<Rightarrow> ('s \<Rightarrow> real) \<Rightarrow> ('s \<Rightarrow> real) \<Rightarrow> 's dict \<Rightarrow> 's dict \<times> standing list" where
  "get_glicko2_standings_with_uncertainty C rd_of volatility_of players =
     (let standings = foldl (\<lambda>standings (n, p).
            standings @ [\<lparr>name = n, rating = rating_of C p, rd = rd_of p,
                           volatility = volatility_of p\<rparr>]) [] players;
          standings = sort_reverse rating standings
      in (players, standings))"

section \<open>Auxiliary notions\<close>

text \<open>The registry once both players of a match are materialised.\<close>

definition materialise :: "'s competitor_class \<Rightarrow> real \<Rightarrow> match_rec \<Rightarrow> 's dict \<Rightarrow> 's dict" where
  "materialise C r m players = ensure C r (player2 m) (ensure C r (player1 m) players)"

text \<open>The states of player 1 and player 2 after the method call the outcome selects.\<close>

definition resolve :: "'s competitor_class \<Rightarrow> match_rec \<Rightarrow> 's \<Rightarrow> 's \<Rightarrow> 's \<times> 's" where
  "resolve C m p1 p2 =
     (if winner m = ''NUL'' then invoke (tied C) (tied_alias C) (player1 m = player2 m) p1 p2
      else if winner m = player1 m
        then invoke (beat C) (beat_alias C) (player1 m = player2 m) p1 p2
      else prod.swap (invoke (beat C) (beat_alias C) (player1 m = player2 m) p2 p1))"

text \<open>The history entry of a match, from the four ratings it records.\<close>

definition entry_of :: "match_rec \<Rightarrow> real \<Rightarrow> real \<Rightarrow> real \<Rightarrow> real \<Rightarrow> pyval dict" where
  "entry_of m b1 a1 b2 a2 = dict_display
     [(''match'', PyInt (match_num m)),
      (''player1'', PyStr (player1 m)),
      (''player2'', PyStr (player2 m)),
      (''winner'', PyStr (winner m)),
      (player1 m @ ''_before'', PyFloat b1),
      (player1 m @ ''_after'', PyFloat a1),
      (player2 m @ ''_before'', PyFloat b2),
      (player2 m @ ''_after'', PyFloat a2)]"

text \<open>The names of a match list, in the order the simulation meets them.\<close>

definition names_of :: "match_rec list \<Rightarrow> string list" where
  "names_of matches = concat (map (\<lambda>m. [player1 m, player2 m]) matches)"

section \<open>Facts about the simulation loop\<close>

subsection \<open>The simulation never raises\<close>

lemma map_of_ensure_self: "map_of (ensure C r n ps) n \<noteq> None"
  by (simp add: ensure_def update_conv')

lemma map_of_ensure_other: "map_of ps k \<noteq> None \<Longrightarrow> map_of (ensure C r n ps) k \<noteq> None"
  by (simp add: ensure_def update_conv')

lemma materialise_player1: "\<exists>p. map_of (materialise C r m ps) (player1 m) = Some p"
  using map_of_ensure_other[OF map_of_ensure_self] by (fastforce simp: materialise_def)

lemma materialise_player2: "\<exists>p. map_of (materialise C r m ps) (player2 m) = Some p"
  using map_of_ensure_self by (fastforce simp: materialise_def)

lemma process_match_eq:
  assumes "map_of (materialise C r m players) (player1 m) = Some p1"
      and "map_of (materialise C r m players) (player2 m) = Some p2"
  shows "process_match C r (players, history) m =
         Inr (AList.update (player2 m) (snd (resolve C m p1 p2))
               (AList.update (player1 m) (fst (resolve C m p1 p2)) (materialise C r m players)),
              history @ [entry_of m (rating_of C p1) (rating_of C (fst (resolve C m p1 p2)))
                                    (rating_of C p2) (rating_of C (snd (resolve C m p1 p2)))])"
  using assms
  by (simp add: process_match_def materialise_def getitem_def resolve_def entry_of_def Let_def
          split: prod.splits)

lemma process_match_total: "\<exists>st'. process_match C r st m = Inr st'"
proof -
  obtain p1 where p1: "map_of (materialise C r m (fst st)) (player1 m) = Some p1"
    using materialise_player1[of C r m "fst st"] by auto
  obtain p2 where p2: "map_of (materialise C r m (fst st)) (player2 m) = Some p2"
    using materialise_player2[of C r m "fst st"] by auto
  show ?thesis
    using process_match_eq[OF p1 p2, of "snd st"] by simp
qed

lemma simulate_total: "\<exists>st'. simulate C r ms st = Inr st'"
proof (induction ms arbitrary: st)
  case Nil
  show ?case by simp
next
  case (Cons m ms)
  obtain st1 where "process_match C r st m = Inr st1"
    using process_match_total[of C r st m] by auto
  then show ?case using Cons.IH[of st1] by simp
qed

lemma simulate_append:
  "simulate C r (xs @ ys) st =
     (case simulate C r xs st of Inl e \<Rightarrow> Inl e | Inr st' \<Rightarrow> simulate C r ys st')"
  by (induction xs arbitrary: st) (auto split: sum.splits)

lemma process_match_history:
  assumes "process_match C r (pl, h) m = Inr (pl', h')"
  shows "\<exists>e. h' = h @ [e]"
proof -
  obtain p1 where p1: "map_of (materialise C r m pl) (player1 m) = Some p1"
    using materialise_player1[of C r m pl] by auto
  obtain p2 where p2: "map_of (materialise C r m pl) (player2 m) = Some p2"
    using materialise_player2[of C r m pl] by auto
  show ?thesis using assms process_match_eq[OF p1 p2, of h] by auto
qed

lemma simulate_history:
  "simulate C r ms (pl, h) = Inr (pl', h') \<Longrightarrow> length h' = length h + length ms \<and> take (length h) h' = h"
proof (induction ms arbitrary: pl h)
  case Nil
  then show ?case by simp
next
  case (Cons m ms)
  obtain pl1 h1 where s1: "process_match C r (pl, h) m = Inr (pl1, h1)"
    using process_match_total[of C r "(pl, h)" m] by auto
  then obtain e where h1: "h1 = h @ [e]" using process_match_history by blast
  from Cons.prems s1 have "simulate C r ms (pl1, h1) = Inr (pl', h')" by simp
  from Cons.IH[OF this] have len: "length h' = length h1 + length ms"
    and tk: "take (length h1) h' = h1" by auto
  have "take (length h) h' = take (length h) (take (length h1) h')"
    using h1 by (simp add: min_def)
  also have "\<dots> = take (length h) h1" by (simp only: tk)
  also have "\<dots> = h" by (simp add: h1)
  finally show ?case using len h1 by simp
qed

subsection \<open>Keys of a history entry\<close>

lemma before_neq_after: "p @ ''_before'' \<noteq> q @ ''_after''"
proof
  assume "p @ ''_before'' = q @ ''_after''"
  then have "last (p @ ''_before'') = last (q @ ''_after'')" by simp
  then show False by simp
qed

lemma fixed_keys_neq:
  "p @ ''_before'' \<noteq> ''match''" "p @ ''_before'' \<noteq> ''player1''"
  "p @ ''_before'' \<noteq> ''player2''" "p @ ''_before'' \<noteq> ''winner''"
  "p @ ''_after'' \<noteq> ''match''" "p @ ''_after'' \<noteq> ''player1''"
  "p @ ''_after'' \<noteq> ''player2''" "p @ ''_after'' \<noteq> ''winner''"
proof -
  have a: "\<And>s. last (p @ ''_before'') \<noteq> last s \<Longrightarrow> p @ ''_before'' \<noteq> s" by metis
  have b: "\<And>s. last (p @ ''_after'') \<noteq> last s \<Longrightarrow> p @ ''_after'' \<noteq> s" by metis
  show "p @ ''_before'' \<noteq> ''match''" by (rule a) simp
  show "p @ ''_before'' \<noteq> ''player1''" by (rule a) simp
  show "p @ ''_before'' \<noteq> ''player2''" by (rule a) simp
  show "p @ ''_before'' \<noteq> ''winner''" by (rule a) simp
  show "p @ ''_after'' \<noteq> ''match''" by (rule b) simp
  show "p @ ''_after'' \<noteq> ''player1''" by (rule b) simp
  show "p @ ''_after'' \<noteq> ''player2''" by (rule b) simp
  show "p @ ''_after'' \<noteq> ''winner''"
  proof
    assume eq: "p @ ''_after'' = ''winner''"
    then have "length (p @ ''_after'') = length ''winner''" by simp
    then have "p = []" by simp
    with eq show False by simp
  qed
qed

lemma entry_alias:
  assumes "player1 m = player2 m"
  shows "entry_of m b1 a1 b2 a2 =
     [(''match'', PyInt (match_num m)), (''player1'', PyStr (player1 m)),
      (''player2'', PyStr (player2 m)), (''winner'', PyStr (winner m)),
      (player1 m @ ''_before'', PyFloat b2), (player1 m @ ''_after'', PyFloat a2)]"
  using fixed_keys_neq[of "player2 m"] before_neq_after[of "player2 m" "player2 m"] assms
  by (simp add: entry_of_def dict_display_def)

lemma entry_distinct:
  assumes "player1 m \<noteq> player2 m"
  shows "entry_of m b1 a1 b2 a2 =
     [(''match'', PyInt (match_num m)), (''player1'', PyStr (player1 m)),
      (''player2'', PyStr (player2 m)), (''winner'', PyStr (winner m)),
      (player1 m @ ''_before'', PyFloat b1), (player1 m @ ''_after'', PyFloat a1),
      (player2 m @ ''_before'', PyFloat b2), (player2 m @ ''_after'', PyFloat a2)]"
  using fixed_keys_neq[of "player2 m"] fixed_keys_neq[of "player1 m"]
    before_neq_after[of "player2 m" "player2 m"] before_neq_after[of "player1 m" "player2 m"]
    before_neq_after[of "player2 m" "player1 m"] before_neq_after[of "player1 m" "player1 m"] assms
  by (simp add: entry_of_def dict_display_def)

lemma resolve_alias: "player1 m = player2 m \<Longrightarrow> fst (resolve C m p1 p2) = snd (resolve C m p1 p2)"
  by (simp add: resolve_def invoke_def Let_def)

lemma entry_lookup:
  "map_of (entry_of m b1 a1 b2 a2) ''match'' = Some (PyInt (match_num m))"
  "map_of (entry_of m b1 a1 b2 a2) ''player1'' = Some (PyStr (player1 m))"
  "map_of (entry_of m b1 a1 b2 a2) ''player2'' = Some (PyStr (player2 m))"
  "map_of (entry_of m b1 a1 b2 a2) ''winner'' = Some (PyStr (winner m))"
  "map_of (entry_of m b1 a1 b2 a2) (player2 m @ ''_before'') = Some (PyFloat b2)"
  "map_of (entry_of m b1 a1 b2 a2) (player2 m @ ''_after'') = Some (PyFloat a2)"
  "player1 m \<noteq> player2 m \<Longrightarrow>
     map_of (entry_of m b1 a1 b2 a2) (player1 m @ ''_before'') = Some (PyFloat b1)"
  "player1 m \<noteq> player2 m \<Longrightarrow>
     map_of (entry_of m b1 a1 b2 a2) (player1 m @ ''_after'') = Some (PyFloat a1)"
  using fixed_keys_neq[of "player2 m"] fixed_keys_neq[of "player1 m"]
    before_neq_after[of "player2 m" "player2 m"] before_neq_after[of "player1 m" "player2 m"]
    before_neq_after[of "player2 m" "player1 m"] before_neq_after[of "player1 m" "player1 m"]
  by (cases "player1 m = player2 m"; simp add: entry_alias entry_distinct)+

lemma ensure_idem: "ensure C r n (ensure C r n ps) = ensure C r n ps"
  by (simp add: ensure_def update_conv')

lemma expected_score_equal [simp]: "expected_score r r = 1 / 2"
  by (simp add: expected_score_def)

section \<open>The concrete Elo scenario\<close>

text \<open>
  C4: Elo with K = 40 and initial rating 1200 on the single match "A beats B", both
  players unseen before: the expected score of A is 0.5 and the simulation ends with
  A at 1220 and B at 1180.
\<close>

theorem elo_scenario_A_beats_B:
  "expected_score 1200 1200 = 1 / 2 \<and>
   run_elo_simulation
      [\<lparr>match_num = 1, player1 = ''A'', player2 = ''B'', winner = ''A''\<rparr>] 40 1200
    = Inr ([(''A'', \<lparr>elo_rating = 1220, k_factor = 40\<rparr>),
            (''B'', \<lparr>elo_rating = 1180, k_factor = 40\<rparr>)],
           [[(''match'', PyInt 1), (''player1'', PyStr ''A''), (''player2'', PyStr ''B''),
             (''winner'', PyStr ''A''),
             (''A_before'', PyFloat 1200), (''A_after'', PyFloat 1220),
             (''B_before'', PyFloat 1200), (''B_after'', PyFloat 1180)]])"
  by (simp add: run_elo_simulation_def process_match_def ensure_def getitem_def
      EloCompetitor_def invoke_def elo_beat_def elo_update_def dict_display_def Let_def)

section \<open>Outcome resolution\<close>

text \<open>
  C1, as the specification states it, fails: a match whose outcome string is neither
  a participant's name nor \<open>NUL\<close> is processed without any error, and player 2 is
  credited with the win.
\<close>

theorem unmatched_outcome_no_error_counterexample:
  "run_elo_simulation
      [\<lparr>match_num = 1, player1 = ''A'', player2 = ''B'', winner = ''Z''\<rparr>] 40 1200
    = Inr ([(''A'', \<lparr>elo_rating = 1180, k_factor = 40\<rparr>),
            (''B'', \<lparr>elo_rating = 1220, k_factor = 40\<rparr>)],
           [[(''match'', PyInt 1), (''player1'', PyStr ''A''), (''player2'', PyStr ''B''),
             (''winner'', PyStr ''Z''),
             (''A_before'', PyFloat 1200), (''A_after'', PyFloat 1180),
             (''B_before'', PyFloat 1200), (''B_after'', PyFloat 1220)]]) \<and>
   run_elo_simulation
      [\<lparr>match_num = 1, player1 = ''A'', player2 = ''B'', winner = ''Z''\<rparr>] 40 1200
    \<noteq> Inl InvalidOutcome"
  by (simp add: run_elo_simulation_def process_match_def ensure_def getitem_def
      EloCompetitor_def invoke_def elo_beat_def elo_update_def dict_display_def Let_def)

text \<open>
  C1, amended: for every match whose outcome string is neither \<open>NUL\<close> nor the name of
  player 1 (so also when it matches neither participant), the loop body raises nothing
  and resolves the match as \<open>p2.beat(p1)\<close>: the registry holds the two states that call
  returns, and the history entry records them.
\<close>

theorem other_outcome_is_player2_win:
  assumes "winner m \<noteq> ''NUL''" and "winner m \<noteq> player1 m"
  shows "\<exists>p1 p2 p1' p2'.
     map_of (ensure C r (player2 m) (ensure C r (player1 m) players)) (player1 m) = Some p1 \<and>
     map_of (ensure C r (player2 m) (ensure C r (player1 m) players)) (player2 m) = Some p2 \<and>
     invoke (beat C) (beat_alias C) (player1 m = player2 m) p2 p1 = (p2', p1') \<and>
     process_match C r (players, history) m =
       Inr (AList.update (player2 m) p2' (AList.update (player1 m) p1'
              (ensure C r (player2 m) (ensure C r (player1 m) players))),
            history @ [dict_display
              [(''match'', PyInt (match_num m)),
               (''player1'', PyStr (player1 m)),
               (''player2'', PyStr (player2 m)),
               (''winner'', PyStr (winner m)),
               (player1 m @ ''_before'', PyFloat (rating_of C p1)),
               (player1 m @ ''_after'', PyFloat (rating_of C p1')),
               (player2 m @ ''_before'', PyFloat (rating_of C p2)),
               (player2 m @ ''_after'', PyFloat (rating_of C p2'))]])"
proof -
  obtain p1 where p1: "map_of (materialise C r m players) (player1 m) = Some p1"
    using materialise_player1[of C r m players] by auto
  obtain p2 where p2: "map_of (materialise C r m players) (player2 m) = Some p2"
    using materialise_player2[of C r m players] by auto
  obtain p2' p1' where
    inv: "invoke (beat C) (beat_alias C) (player1 m = player2 m) p2 p1 = (p2', p1')"
    by (cases "invoke (beat C) (beat_alias C) (player1 m = player2 m) p2 p1") auto
  have res: "resolve C m p1 p2 = (p1', p2')"
    using assms inv by (simp add: resolve_def)
  show ?thesis
    by (rule exI[of _ p1], rule exI[of _ p2], rule exI[of _ p1'], rule exI[of _ p2'],
        insert process_match_eq[OF p1 p2, of history] p1 p2 inv,
        simp add: res materialise_def entry_of_def)
qed

theorem other_outcome_is_player2_win_witness:
  "winner \<lparr>match_num = 1, player1 = ''A'', player2 = ''B'', winner = ''Z''\<rparr> \<noteq> ''NUL'' \<and>
   winner \<lparr>match_num = 1, player1 = ''A'', player2 = ''B'', winner = ''Z''\<rparr>
     \<noteq> player1 \<lparr>match_num = 1, player1 = ''A'', player2 = ''B'', winner = ''Z''\<rparr> \<and>
   process_match (EloCompetitor 40) 1200 ([], [])
       \<lparr>match_num = 1, player1 = ''A'', player2 = ''B'', winner = ''Z''\<rparr>
     = Inr ([(''A'', \<lparr>elo_rating = 1180, k_factor = 40\<rparr>),
             (''B'', \<lparr>elo_rating = 1220, k_factor = 40\<rparr>)],
            [[(''match'', PyInt 1), (''player1'', PyStr ''A''), (''player2'', PyStr ''B''),
              (''winner'', PyStr ''Z''),
              (''A_before'', PyFloat 1200), (''A_after'', PyFloat 1180),
              (''B_before'', PyFloat 1200), (''B_after'', PyFloat 1220)]])"
  using other_outcome_is_player2_win[of
      "\<lparr>match_num = 1, player1 = ''A'', player2 = ''B'', winner = ''Z''\<rparr>"
      "EloCompetitor 40" 1200 "[]" "[]"]
  by (simp add: ensure_def EloCompetitor_def invoke_def elo_beat_def elo_update_def
        dict_display_def Let_def)

text \<open>
  C3, as the specification states it, fails: with a participant named \<open>NUL\<close> and the
  outcome string \<open>NUL\<close> the simulation returns normally, and both ratings are those of
  a draw.
\<close>

theorem draw_marker_player_counterexample:
  "run_elo_simulation
      [\<lparr>match_num = 1, player1 = ''A'', player2 = ''NUL'', winner = ''NUL''\<rparr>] 40 1200
    = Inr ([(''A'', \<lparr>elo_rating = 1200, k_factor = 40\<rparr>),
            (''NUL'', \<lparr>elo_rating = 1200, k_factor = 40\<rparr>)],
           [[(''match'', PyInt 1), (''player1'', PyStr ''A''), (''player2'', PyStr ''NUL''),
             (''winner'', PyStr ''NUL''),
             (''A_before'', PyFloat 1200), (''A_after'', PyFloat 1200),
             (''NUL_before'', PyFloat 1200), (''NUL_after'', PyFloat 1200)]])"
  by (simp add: run_elo_simulation_def process_match_def ensure_def getitem_def
      EloCompetitor_def invoke_def elo_tied_def elo_update_def dict_display_def Let_def)

text \<open>
  C3, amended: the outcome string \<open>NUL\<close> is resolved as the draw \<open>p1.tied(p2)\<close>
  whatever the names of the participants are, also when one of them is named \<open>NUL\<close>,
  and the loop body raises nothing.
\<close>

theorem draw_marker_is_draw:
  assumes "winner m = ''NUL''"
  shows "\<exists>p1 p2 p1' p2'.
     map_of (ensure C r (player2 m) (ensure C r (player1 m) players)) (player1 m) = Some p1 \<and>
     map_of (ensure C r (player2 m) (ensure C r (player1 m) players)) (player2 m) = Some p2 \<and>
     invoke (tied C) (tied_alias C) (player1 m = player2 m) p1 p2 = (p1', p2') \<and>
     process_match C r (players, history) m =
       Inr (AList.update (player2 m) p2' (AList.update (player1 m) p1'
              (ensure C r (player2 m) (ensure C r (player1 m) players))),
            history @ [dict_display
              [(''match'', PyInt (match_num m)),
               (''player1'', PyStr (player1 m)),
               (''player2'', PyStr (player2 m)),
               (''winner'', PyStr ''NUL''),
               (player1 m @ ''_before'', PyFloat (rating_of C p1)),
               (player1 m @ ''_after'', PyFloat (rating_of C p1')),
               (player2 m @ ''_before'', PyFloat (rating_of C p2)),
               (player2 m @ ''_after'', PyFloat (rating_of C p2'))]])"
proof -
  obtain p1 where p1: "map_of (materialise C r m players) (player1 m) = Some p1"
    using materialise_player1[of C r m players] by auto
  obtain p2 where p2: "map_of (materialise C r m players) (player2 m) = Some p2"
    using materialise_player2[of C r m players] by auto
  obtain p1' p2' where
    inv: "invoke (tied C) (tied_alias C) (player1 m = player2 m) p1 p2 = (p1', p2')"
    by (cases "invoke (tied C) (tied_alias C) (player1 m = player2 m) p1 p2") auto
  have res: "resolve C m p1 p2 = (p1', p2')"
    using assms inv by (simp add: resolve_def)
  show ?thesis
    by (rule exI[of _ p1], rule exI[of _ p2], rule exI[of _ p1'], rule exI[of _ p2'],
        insert process_match_eq[OF p1 p2, of history] p1 p2 inv assms,
        simp add: res materialise_def entry_of_def)
qed

theorem draw_marker_is_draw_witness:
  "winner \<lparr>match_num = 1, player1 = ''A'', player2 = ''NUL'', winner = ''NUL''\<rparr> = ''NUL'' \<and>
   process_match (EloCompetitor 40) 1200 ([], [])
       \<lparr>match_num = 1, player1 = ''A'', player2 = ''NUL'', winner = ''NUL''\<rparr>
     = Inr ([(''A'', \<lparr>elo_rating = 1200, k_factor = 40\<rparr>),
             (''NUL'', \<lparr>elo_rating = 1200, k_factor = 40\<rparr>)],
            [[(''match'', PyInt 1), (''player1'', PyStr ''A''), (''player2'', PyStr ''NUL''),
              (''winner'', PyStr ''NUL''),
              (''A_before'', PyFloat 1200), (''A_after'', PyFloat 1200),
              (''NUL_before'', PyFloat 1200), (''NUL_after'', PyFloat 1200)]])"
  using draw_marker_is_draw[of
      "\<lparr>match_num = 1, player1 = ''A'', player2 = ''NUL'', winner = ''NUL''\<rparr>"
      "EloCompetitor 40" 1200 "[]" "[]"]
  by (simp add: ensure_def EloCompetitor_def invoke_def elo_tied_def elo_update_def
        dict_display_def Let_def)

section \<open>Algorithm selection\<close>

text \<open>
  C2, as the specification states it, fails: \<open>glicko_version = 3\<close> raises nothing. The
  run uses the class given for \<open>Glicko2Competitor\<close>. The two library classes are
  parameters of the model; here two Elo classes that differ in K stand for them, so
  that the selected one shows in the result.
\<close>

theorem unknown_glicko_version_counterexample:
  "run_glicko_simulation (EloCompetitor 20) (EloCompetitor 40)
      [\<lparr>match_num = 1, player1 = ''A'', player2 = ''B'', winner = ''A''\<rparr>] 1200 3
    = Inr ([(''A'', \<lparr>elo_rating = 1220, k_factor = 40\<rparr>),
            (''B'', \<lparr>elo_rating = 1180, k_factor = 40\<rparr>)],
           [[(''match'', PyInt 1), (''player1'', PyStr ''A''), (''player2'', PyStr ''B''),
             (''winner'', PyStr ''A''),
             (''A_before'', PyFloat 1200), (''A_after'', PyFloat 1220),
             (''B_before'', PyFloat 1200), (''B_after'', PyFloat 1180)]]) \<and>
   run_glicko_simulation (EloCompetitor 20) (EloCompetitor 40)
      [\<lparr>match_num = 1, player1 = ''A'', player2 = ''B'', winner = ''A''\<rparr>] 1200 3
    \<noteq> Inl UnsupportedAlgorithm"
  by (simp add: run_glicko_simulation_def process_match_def ensure_def getitem_def
      EloCompetitor_def invoke_def elo_beat_def elo_update_def dict_display_def Let_def)

text \<open>
  C2, amended: every \<open>glicko_version\<close> other than 1 selects \<open>Glicko2Competitor\<close>: the
  run is the run of \<open>glicko_version = 2\<close>, it is the simulation with the second class,
  and it returns a registry and a history, not an error.
\<close>

theorem other_glicko_version_is_glicko2:
  assumes "glicko_version \<noteq> 1"
  shows "run_glicko_simulation G1 G2 matches r glicko_version
           = run_glicko_simulation G1 G2 matches r 2 \<and>
         (\<exists>players history.
            run_glicko_simulation G1 G2 matches r glicko_version = Inr (players, history) \<and>
            simulate G2 r matches ([], []) = Inr (players, history))"
proof -
  obtain players history where "simulate G2 r matches ([], []) = Inr (players, history)"
    using simulate_total[of G2 r matches "([], [])"] by auto
  then show ?thesis using assms by (simp add: run_glicko_simulation_def)
qed

theorem other_glicko_version_is_glicko2_witness:
  "(3::int) \<noteq> 1 \<and>
   run_glicko_simulation (EloCompetitor 20) (EloCompetitor 40)
      [\<lparr>match_num = 1, player1 = ''A'', player2 = ''B'', winner = ''A''\<rparr>] 1200 3
    = run_glicko_simulation (EloCompetitor 20) (EloCompetitor 40)
      [\<lparr>match_num = 1, player1 = ''A'', player2 = ''B'', winner = ''A''\<rparr>] 1200 2"
  using other_glicko_version_is_glicko2[of 3 "EloCompetitor 20" "EloCompetitor 40"
      "[\<lparr>match_num = 1, player1 = ''A'', player2 = ''B'', winner = ''A''\<rparr>]" 1200]
  by simp

section \<open>Zero sum of an Elo match\<close>

text \<open>
  C5: in the Elo simulation, when the two players of a match are different competitors
  with the same K-factor, processing the match changes the rating of one by exactly the
  negative of the change of the other.
\<close>

theorem elo_zero_sum:
  assumes "player1 m \<noteq> player2 m"
      and "map_of (ensure (EloCompetitor k) r (player2 m)
                    (ensure (EloCompetitor k) r (player1 m) players)) (player1 m) = Some a"
      and "map_of (ensure (EloCompetitor k) r (player2 m)
                    (ensure (EloCompetitor k) r (player1 m) players)) (player2 m) = Some b"
      and "k_factor a = k_factor b"
  shows "\<exists>players' history' a' b'.
           process_match (EloCompetitor k) r (players, history) m = Inr (players', history') \<and>
           map_of players' (player1 m) = Some a' \<and>
           map_of players' (player2 m) = Some b' \<and>
           elo_rating a' - elo_rating a = - (elo_rating b' - elo_rating b)"
proof -
  let ?C = "EloCompetitor k"
  let ?res = "resolve ?C m a b"
  let ?post = "AList.update (player2 m) (snd ?res)
                 (AList.update (player1 m) (fst ?res) (materialise ?C r m players))"
  let ?e = "entry_of m (rating_of ?C a) (rating_of ?C (fst ?res))
                       (rating_of ?C b) (rating_of ?C (snd ?res))"
  have a: "map_of (materialise ?C r m players) (player1 m) = Some a"
    and b: "map_of (materialise ?C r m players) (player2 m) = Some b"
    using assms(2,3) by (simp_all add: materialise_def)
  have delta: "elo_rating (fst ?res) - elo_rating a = - (elo_rating (snd ?res) - elo_rating b)"
    using assms(1,4)
    by (simp add: resolve_def invoke_def EloCompetitor_def elo_beat_def elo_tied_def
          elo_update_def Let_def algebra_simps)
  have step: "process_match ?C r (players, history) m = Inr (?post, history @ [?e])"
    by (rule process_match_eq[OF a b])
  have post1: "map_of ?post (player1 m) = Some (fst ?res)"
    using assms(1) by (simp add: update_conv')
  have post2: "map_of ?post (player2 m) = Some (snd ?res)"
    by (simp add: update_conv')
  show ?thesis
    by (rule exI[of _ ?post], rule exI[of _ "history @ [?e]"],
        rule exI[of _ "fst ?res"], rule exI[of _ "snd ?res"],
        intro conjI, rule step, rule post1, rule post2, rule delta)
qed

theorem elo_zero_sum_witness:
  "player1 \<lparr>match_num = 1, player1 = ''A'', player2 = ''B'', winner = ''A''\<rparr>
     \<noteq> player2 \<lparr>match_num = 1, player1 = ''A'', player2 = ''B'', winner = ''A''\<rparr> \<and>
   k_factor \<lparr>elo_rating = 1200, k_factor = 40\<rparr> = k_factor \<lparr>elo_rating = 1200, k_factor = 40\<rparr> \<and>
   (\<exists>players' history' a' b'.
      process_match (EloCompetitor 40) 1200 ([], [])
        \<lparr>match_num = 1, player1 = ''A'', player2 = ''B'', winner = ''A''\<rparr>
        = Inr (players', history') \<and>
      map_of players' ''A'' = Some a' \<and> map_of players' ''B'' = Some b' \<and>
      elo_rating a' - 1200 = - (elo_rating b' - 1200))"
  using elo_zero_sum[of
      "\<lparr>match_num = 1, player1 = ''A'', player2 = ''B'', winner = ''A''\<rparr>" 40 1200 "[]"
      "\<lparr>elo_rating = 1200, k_factor = 40\<rparr>" "\<lparr>elo_rating = 1200, k_factor = 40\<rparr>" "[]"]
  by (simp add: ensure_def EloCompetitor_def)

section \<open>A match of a player against itself\<close>

text \<open>
  C9: when a match names the same player twice, both roles are the one registry entry
  of that name: the method for the outcome is applied to that single state, and the
  history entry has one \<open>_before\<close> and one \<open>_after\<close> key, because the keys built from
  the two names are the same.
\<close>

theorem self_match_single_state:
  assumes "player1 m = player2 m"
  shows "\<exists>s. map_of (ensure C r (player1 m) players) (player1 m) = Some s \<and>
     (let s' = (if winner m = ''NUL'' then tied_alias C s else beat_alias C s)
      in process_match C r (players, history) m =
         Inr (AList.update (player1 m) s' (ensure C r (player1 m) players),
              history @ [[(''match'', PyInt (match_num m)),
                          (''player1'', PyStr (player1 m)),
                          (''player2'', PyStr (player1 m)),
                          (''winner'', PyStr (winner m)),
                          (player1 m @ ''_before'', PyFloat (rating_of C s)),
                          (player1 m @ ''_after'', PyFloat (rating_of C s'))]]))"
proof -
  have mat: "materialise C r m players = ensure C r (player1 m) players"
    using assms by (simp add: materialise_def ensure_idem)
  obtain s where s: "map_of (materialise C r m players) (player1 m) = Some s"
    using materialise_player1[of C r m players] by auto
  then have s2: "map_of (materialise C r m players) (player2 m) = Some s"
    using assms by simp
  have res: "resolve C m s s =
      (let s' = (if winner m = ''NUL'' then tied_alias C s else beat_alias C s) in (s', s'))"
    using assms by (simp add: resolve_def invoke_def Let_def)
  show ?thesis
    by (rule exI[of _ s],
        insert process_match_eq[OF s s2, of history] s assms,
        simp add: mat res Let_def entry_alias update_last)
qed

theorem self_match_single_state_witness:
  "player1 \<lparr>match_num = 1, player1 = ''A'', player2 = ''A'', winner = ''NUL''\<rparr>
     = player2 \<lparr>match_num = 1, player1 = ''A'', player2 = ''A'', winner = ''NUL''\<rparr> \<and>
   process_match (EloCompetitor 40) 1200 ([], [])
       \<lparr>match_num = 1, player1 = ''A'', player2 = ''A'', winner = ''NUL''\<rparr>
     = Inr ([(''A'', \<lparr>elo_rating = 1200, k_factor = 40\<rparr>)],
            [[(''match'', PyInt 1), (''player1'', PyStr ''A''), (''player2'', PyStr ''A''),
              (''winner'', PyStr ''NUL''),
              (''A_before'', PyFloat 1200), (''A_after'', PyFloat 1200)]])"
  using self_match_single_state[of
      "\<lparr>match_num = 1, player1 = ''A'', player2 = ''A'', winner = ''NUL''\<rparr>"
      "EloCompetitor 40" 1200 "[]" "[]"]
  by (simp add: ensure_def EloCompetitor_def elo_tied_alias_def elo_update_def Let_def)

section \<open>The history\<close>

text \<open>
  One pass of the loop body from the registry \<open>pre\<close> and the history \<open>h\<close>: it appends
  one entry \<open>e\<close>; the \<open>_before\<close> values of \<open>e\<close> are the ratings in the registry once both
  players are materialised and before any method is called, the \<open>_after\<close> values are
  the ratings in the registry the pass leaves.
\<close>

lemma process_match_trace:
  "\<exists>p1 p2 p1' p2' post e.
     map_of (ensure C r (player2 m) (ensure C r (player1 m) pre)) (player1 m) = Some p1 \<and>
     map_of (ensure C r (player2 m) (ensure C r (player1 m) pre)) (player2 m) = Some p2 \<and>
     process_match C r (pre, h) m = Inr (post, h @ [e]) \<and>
     map_of post (player1 m) = Some p1' \<and>
     map_of post (player2 m) = Some p2' \<and>
     map_of e ''match'' = Some (PyInt (match_num m)) \<and>
     map_of e ''player1'' = Some (PyStr (player1 m)) \<and>
     map_of e ''player2'' = Some (PyStr (player2 m)) \<and>
     map_of e ''winner'' = Some (PyStr (winner m)) \<and>
     map_of e (player1 m @ ''_before'') = Some (PyFloat (rating_of C p1)) \<and>
     map_of e (player2 m @ ''_before'') = Some (PyFloat (rating_of C p2)) \<and>
     map_of e (player1 m @ ''_after'') = Some (PyFloat (rating_of C p1')) \<and>
     map_of e (player2 m @ ''_after'') = Some (PyFloat (rating_of C p2'))"
proof -
  obtain p1 where p1: "map_of (materialise C r m pre) (player1 m) = Some p1"
    using materialise_player1[of C r m pre] by auto
  obtain p2 where p2: "map_of (materialise C r m pre) (player2 m) = Some p2"
    using materialise_player2[of C r m pre] by auto
  let ?res = "resolve C m p1 p2"
  let ?post = "AList.update (player2 m) (snd ?res)
                 (AList.update (player1 m) (fst ?res) (materialise C r m pre))"
  let ?e = "entry_of m (rating_of C p1) (rating_of C (fst ?res))
                       (rating_of C p2) (rating_of C (snd ?res))"
  have step: "process_match C r (pre, h) m = Inr (?post, h @ [?e])"
    by (rule process_match_eq[OF p1 p2])
  have post1: "map_of ?post (player1 m) = Some (fst ?res)"
    using resolve_alias[of m C p1 p2] by (simp add: update_conv')
  have post2: "map_of ?post (player2 m) = Some (snd ?res)"
    by (simp add: update_conv')
  have b1: "map_of ?e (player1 m @ ''_before'') = Some (PyFloat (rating_of C p1))"
  proof (cases "player1 m = player2 m")
    case True
    have "p1 = p2" using p1 p2 True by simp
    moreover have "map_of ?e (player2 m @ ''_before'') = Some (PyFloat (rating_of C p2))"
      by (rule entry_lookup)
    ultimately show ?thesis by (simp only: True)
  next
    case False
    then show ?thesis by (rule entry_lookup)
  qed
  have a1: "map_of ?e (player1 m @ ''_after'') = Some (PyFloat (rating_of C (fst ?res)))"
  proof (cases "player1 m = player2 m")
    case True
    then have "fst ?res = snd ?res" by (rule resolve_alias)
    moreover have "map_of ?e (player2 m @ ''_after'') = Some (PyFloat (rating_of C (snd ?res)))"
      by (rule entry_lookup)
    ultimately show ?thesis by (simp only: True)
  next
    case False
    then show ?thesis by (rule entry_lookup)
  qed
  have p1': "map_of (ensure C r (player2 m) (ensure C r (player1 m) pre)) (player1 m) = Some p1"
    and p2': "map_of (ensure C r (player2 m) (ensure C r (player1 m) pre)) (player2 m) = Some p2"
    using p1 p2 by (simp_all add: materialise_def)
  show ?thesis
    by (rule exI[of _ p1], rule exI[of _ p2], rule exI[of _ "fst ?res"],
        rule exI[of _ "snd ?res"], rule exI[of _ ?post], rule exI[of _ ?e],
        insert p1' p2' step post1 post2 b1 a1, simp add: entry_lookup)
qed

text \<open>
  C8: a simulation of \<open>matches\<close> returns a history with one entry for each match, in
  the order of the matches, and an entry is never changed once appended: the history
  after \<open>i\<close> matches is the first \<open>i\<close> entries of the final one. The entry of match \<open>i\<close>
  records, for both players, the rating held just before the update (read in the
  registry after \<open>i\<close> matches, once both players exist and before any method is called)
  and the rating held just after it (read in the registry after \<open>i + 1\<close> matches).
\<close>

theorem one_history_entry_per_match:
  assumes "i < length matches"
  shows "\<exists>pre h post players history p1 p2 p1' p2'.
     simulate C r (take i matches) ([], []) = Inr (pre, h) \<and>
     simulate C r (take (Suc i) matches) ([], []) = Inr (post, h @ [history ! i]) \<and>
     simulate C r matches ([], []) = Inr (players, history) \<and>
     length history = length matches \<and> length h = i \<and> take i history = h \<and>
     map_of (ensure C r (player2 (matches ! i)) (ensure C r (player1 (matches ! i)) pre))
        (player1 (matches ! i)) = Some p1 \<and>
     map_of (ensure C r (player2 (matches ! i)) (ensure C r (player1 (matches ! i)) pre))
        (player2 (matches ! i)) = Some p2 \<and>
     map_of post (player1 (matches ! i)) = Some p1' \<and>
     map_of post (player2 (matches ! i)) = Some p2' \<and>
     map_of (history ! i) ''match'' = Some (PyInt (match_num (matches ! i))) \<and>
     map_of (history ! i) ''player1'' = Some (PyStr (player1 (matches ! i))) \<and>
     map_of (history ! i) ''player2'' = Some (PyStr (player2 (matches ! i))) \<and>
     map_of (history ! i) ''winner'' = Some (PyStr (winner (matches ! i))) \<and>
     map_of (history ! i) (player1 (matches ! i) @ ''_before'')
        = Some (PyFloat (rating_of C p1)) \<and>
     map_of (history ! i) (player2 (matches ! i) @ ''_before'')
        = Some (PyFloat (rating_of C p2)) \<and>
     map_of (history ! i) (player1 (matches ! i) @ ''_after'')
        = Some (PyFloat (rating_of C p1')) \<and>
     map_of (history ! i) (player2 (matches ! i) @ ''_after'')
        = Some (PyFloat (rating_of C p2'))"
proof -
  let ?m = "matches ! i"
  have tk: "take (Suc i) matches = take i matches @ [?m]"
    using assms by (simp add: take_Suc_conv_app_nth)
  obtain pre h where pre: "simulate C r (take i matches) ([], []) = Inr (pre, h)"
    using simulate_total[of C r "take i matches" "([], [])"] by auto
  have len_h: "length h = i"
    using simulate_history[OF pre] assms by simp
  obtain p1 p2 p1' p2' post e where
    p1: "map_of (ensure C r (player2 ?m) (ensure C r (player1 ?m) pre)) (player1 ?m) = Some p1" and
    p2: "map_of (ensure C r (player2 ?m) (ensure C r (player1 ?m) pre)) (player2 ?m) = Some p2" and
    step: "process_match C r (pre, h) ?m = Inr (post, h @ [e])" and
    post1: "map_of post (player1 ?m) = Some p1'" and
    post2: "map_of post (player2 ?m) = Some p2'" and
    e1: "map_of e ''match'' = Some (PyInt (match_num ?m))" and
    e2: "map_of e ''player1'' = Some (PyStr (player1 ?m))" and
    e3: "map_of e ''player2'' = Some (PyStr (player2 ?m))" and
    e4: "map_of e ''winner'' = Some (PyStr (winner ?m))" and
    e5: "map_of e (player1 ?m @ ''_before'') = Some (PyFloat (rating_of C p1))" and
    e6: "map_of e (player2 ?m @ ''_before'') = Some (PyFloat (rating_of C p2))" and
    e7: "map_of e (player1 ?m @ ''_after'') = Some (PyFloat (rating_of C p1'))" and
    e8: "map_of e (player2 ?m @ ''_after'') = Some (PyFloat (rating_of C p2'))"
    using process_match_trace[of C r ?m pre h] by (elim exE conjE)
  have suc: "simulate C r (take (Suc i) matches) ([], []) = Inr (post, h @ [e])"
    by (simp only: tk simulate_append pre) (simp add: step)
  obtain players history where
    rest: "simulate C r (drop (Suc i) matches) (post, h @ [e]) = Inr (players, history)"
    using simulate_total[of C r "drop (Suc i) matches" "(post, h @ [e])"] by auto
  have "simulate C r (take (Suc i) matches @ drop (Suc i) matches) ([], [])
          = Inr (players, history)"
    by (simp only: simulate_append suc) (simp add: rest)
  then have full: "simulate C r matches ([], []) = Inr (players, history)"
    by simp
  have len: "length history = length matches"
    using simulate_history[OF full] by simp
  have pref: "take (Suc i) history = h @ [e]"
    using simulate_history[OF rest] len_h by simp
  have nth: "history ! i = e"
  proof -
    have "history ! i = take (Suc i) history ! i" by simp
    also have "\<dots> = (h @ [e]) ! length h" by (simp only: pref len_h)
    also have "\<dots> = e" by simp
    finally show ?thesis .
  qed
  have tki: "take i history = h"
  proof -
    have "take i history = take i (take (Suc i) history)" by (simp add: min_def)
    also have "\<dots> = take (length h) (h @ [e])" by (simp only: pref len_h)
    also have "\<dots> = h" by simp
    finally show ?thesis .
  qed
  show ?thesis
    by (rule exI[of _ pre], rule exI[of _ h], rule exI[of _ post], rule exI[of _ players],
        rule exI[of _ history], rule exI[of _ p1], rule exI[of _ p2], rule exI[of _ p1'],
        rule exI[of _ p2'], simp only: nth,
        intro conjI, rule pre, rule suc, rule full, rule len, rule len_h, rule tki,
        rule p1, rule p2, rule post1, rule post2,
        rule e1, rule e2, rule e3, rule e4, rule e5, rule e6, rule e7, rule e8)
qed

theorem one_history_entry_per_match_witness:
  "(0::nat) < length [\<lparr>match_num = 1, player1 = ''A'', player2 = ''B'', winner = ''A''\<rparr>] \<and>
   (\<exists>pre h post players history p1 p2 p1' p2'.
     simulate (EloCompetitor 40) 1200 (take 0 
       [\<lparr>match_num = 1, player1 = ''A'', player2 = ''B'', winner = ''A''\<rparr>]) ([], []) = Inr (pre, h) \<and>
     simulate (EloCompetitor 40) 1200 (take (Suc 0) 
       [\<lparr>match_num = 1, player1 = ''A'', player2 = ''B'', winner = ''A''\<rparr>]) ([], []) = Inr (post, h @ [history ! 0]) \<and>
     simulate (EloCompetitor 40) 1200 
       [\<lparr>match_num = 1, player1 = ''A'', player2 = ''B'', winner = ''A''\<rparr>] ([], []) = Inr (players, history) \<and>
     length history = length 
       [\<lparr>match_num = 1, player1 = ''A'', player2 = ''B'', winner = ''A''\<rparr>] \<and> length h = 0 \<and> take 0 history = h \<and>
     map_of (ensure (EloCompetitor 40) 1200 (player2 (
       [\<lparr>match_num = 1, player1 = ''A'', player2 = ''B'', winner = ''A''\<rparr>] ! 0)) (ensure (EloCompetitor 40) 1200 (player1 (
       [\<lparr>match_num = 1, player1 = ''A'', player2 = ''B'', winner = ''A''\<rparr>] ! 0)) pre))
        (player1 (
       [\<lparr>match_num = 1, player1 = ''A'', player2 = ''B'', winner = ''A''\<rparr>] ! 0)) = Some p1 \<and>
     map_of (ensure (EloCompetitor 40) 1200 (player2 (
       [\<lparr>match_num = 1, player1 = ''A'', player2 = ''B'', winner = ''A''\<rparr>] ! 0)) (ensure (EloCompetitor 40) 1200 (player1 (
       [\<lparr>match_num = 1, player1 = ''A'', player2 = ''B'', winner = ''A''\<rparr>] ! 0)) pre))
        (player2 (
       [\<lparr>match_num = 1, player1 = ''A'', player2 = ''B'', winner = ''A''\<rparr>] ! 0)) = Some p2 \<and>
     map_of post (player1 (
       [\<lparr>match_num = 1, player1 = ''A'', player2 = ''B'', winner = ''A''\<rparr>] ! 0)) = Some p1' \<and>
     map_of post (player2 (
       [\<lparr>match_num = 1, player1 = ''A'', player2 = ''B'', winner = ''A''\<rparr>] ! 0)) = Some p2' \<and>
     map_of (history ! 0) ''match'' = Some (PyInt (match_num (
       [\<lparr>match_num = 1, player1 = ''A'', player2 = ''B'', winner = ''A''\<rparr>] ! 0))) \<and>
     map_of (history ! 0) ''player1'' = Some (PyStr (player1 (
       [\<lparr>match_num = 1, player1 = ''A'', player2 = ''B'', winner = ''A''\<rparr>] ! 0))) \<and>
     map_of (history ! 0) ''player2'' = Some (PyStr (player2 (
       [\<lparr>match_num = 1, player1 = ''A'', player2 = ''B'', winner = ''A''\<rparr>] ! 0))) \<and>
     map_of (history ! 0) ''winner'' = Some (PyStr (winner (
       [\<lparr>match_num = 1, player1 = ''A'', player2 = ''B'', winner = ''A''\<rparr>] ! 0))) \<and>
     map_of (history ! 0) (player1 (
       [\<lparr>match_num = 1, player1 = ''A'', player2 = ''B'', winner = ''A''\<rparr>] ! 0) @ ''_before'')
        = Some (PyFloat (rating_of (EloCompetitor 40) p1)) \<and>
     map_of (history ! 0) (player2 (
       [\<lparr>match_num = 1, player1 = ''A'', player2 = ''B'', winner = ''A''\<rparr>] ! 0) @ ''_before'')
        = Some (PyFloat (rating_of (EloCompetitor 40) p2)) \<and>
     map_of (history ! 0) (player1 (
       [\<lparr>match_num = 1, player1 = ''A'', player2 = ''B'', winner = ''A''\<rparr>] ! 0) @ ''_after'')
        = Some (PyFloat (rating_of (EloCompetitor 40) p1')) \<and>
     map_of (history ! 0) (player2 (
       [\<lparr>match_num = 1, player1 = ''A'', player2 = ''B'', winner = ''A''\<rparr>] ! 0) @ ''_after'')
        = Some (PyFloat (rating_of (EloCompetitor 40) p2')))"
  by (rule conjI, simp, rule one_history_entry_per_match, simp)

section \<open>The standings reporters\<close>

lemma sort_reverse_sorted: "sorted_wrt (\<lambda>a b. key a \<ge> key b) (sort_reverse key xs)"
proof -
  have "sorted_wrt (\<lambda>a b. key a \<le> key b) (sort_key key (rev xs))"
    using sorted_sort_key[of key "rev xs"] by (simp add: sorted_map)
  then show ?thesis by (simp add: sort_reverse_def sorted_wrt_rev)
qed

lemma sort_reverse_mset: "mset (sort_reverse key xs) = mset xs"
  by (simp add: sort_reverse_def)

lemma sort_reverse_stable:
  "filter (\<lambda>x. key x = v) (sort_reverse key xs) = filter (\<lambda>x. key x = v) xs"
proof -
  have "filter (\<lambda>x. key x = v) (sort_reverse key xs)
          = rev (filter (\<lambda>x. key x = v) (sort_key key (rev xs)))"
    by (simp add: sort_reverse_def rev_filter)
  also have "\<dots> = rev (filter (\<lambda>x. key x = v) (rev xs))"
    by (simp only: sort_key_stable)
  also have "\<dots> = filter (\<lambda>x. key x = v) xs"
    by (simp add: rev_filter)
  finally show ?thesis .
qed

lemma keys_ensure:
  "map fst (ensure C r n ps) = (if n \<in> set (map fst ps) then map fst ps else map fst ps @ [n])"
  by (simp add: ensure_def update_keys map_of_eq_None_iff)

lemma keys_update_present: "map_of ps n = Some s \<Longrightarrow> map fst (AList.update n s' ps) = map fst ps"
  by (simp add: update_keys) (metis domI dom_map_of_conv_image_fst)

lemma keys_process_match:
  assumes "process_match C r (pl, h) m = Inr (pl', h')"
  shows "map fst pl' = foldl (\<lambda>seen n. if n \<in> set seen then seen else seen @ [n])
                         (map fst pl) [player1 m, player2 m]"
proof -
  obtain p1 where p1: "map_of (materialise C r m pl) (player1 m) = Some p1"
    using materialise_player1[of C r m pl] by auto
  obtain p2 where p2: "map_of (materialise C r m pl) (player2 m) = Some p2"
    using materialise_player2[of C r m pl] by auto
  let ?res = "resolve C m p1 p2"
  let ?mid = "AList.update (player1 m) (fst ?res) (materialise C r m pl)"
  have pl': "pl' = AList.update (player2 m) (snd ?res) ?mid"
    using assms process_match_eq[OF p1 p2, of h] by simp
  have k1: "map fst ?mid = map fst (materialise C r m pl)"
    using p1 by (rule keys_update_present)
  have "map_of ?mid (player2 m) \<noteq> None"
    using p2 by (simp add: update_conv')
  then obtain q where "map_of ?mid (player2 m) = Some q" by auto
  then have k2: "map fst (AList.update (player2 m) (snd ?res) ?mid) = map fst ?mid"
    by (rule keys_update_present)
  show ?thesis
    by (simp only: pl' k2 k1) (simp add: materialise_def keys_ensure)
qed

lemma keys_simulate:
  "simulate C r ms (pl, h) = Inr (pl', h') \<Longrightarrow>
   map fst pl' = foldl (\<lambda>seen n. if n \<in> set seen then seen else seen @ [n])
                   (map fst pl) (names_of ms)"
proof (induction ms arbitrary: pl h)
  case Nil
  then show ?case by (simp add: names_of_def)
next
  case (Cons m ms)
  obtain pl1 h1 where s1: "process_match C r (pl, h) m = Inr (pl1, h1)"
    using process_match_total[of C r "(pl, h)" m] by auto
  from Cons.prems s1 have "simulate C r ms (pl1, h1) = Inr (pl', h')" by simp
  from Cons.IH[OF this] keys_process_match[OF s1] show ?case
    by (simp add: names_of_def)
qed

lemma first_seen_remdups:
  "foldl (\<lambda>seen n. if n \<in> set seen then seen else seen @ [n]) [] xs = rev (remdups (rev xs))"
proof (induction xs rule: rev_induct)
  case Nil
  show ?case by simp
next
  case (snoc x xs)
  then show ?case by simp
qed

lemma final_standings_example:
  "get_final_standings (EloCompetitor 40)
     [(''A'', \<lparr>elo_rating = 1200, k_factor = 40\<rparr>),
      (''B'', \<lparr>elo_rating = 1220, k_factor = 40\<rparr>),
      (''C'', \<lparr>elo_rating = 1200, k_factor = 40\<rparr>)]
   = ([(''A'', \<lparr>elo_rating = 1200, k_factor = 40\<rparr>),
       (''B'', \<lparr>elo_rating = 1220, k_factor = 40\<rparr>),
       (''C'', \<lparr>elo_rating = 1200, k_factor = 40\<rparr>)],
      [(''B'', 1220), (''A'', 1200), (''C'', 1200)])"
  by (simp add: get_final_standings_def sort_reverse_def EloCompetitor_def)

text \<open>
  C7: for every registry, \<open>get_final_standings\<close> returns the (name, rating) pairs of
  the registry, sorted by rating in descending order, and for every rating the players
  holding it come in the order the registry has them. The registry of a simulation
  has its names in the order of their first appearance in the match list.
\<close>

theorem final_standings_sorted_stable:
  "sorted_wrt (\<lambda>a b. snd a \<ge> snd b) (snd (get_final_standings C players)) \<and>
   mset (snd (get_final_standings C players))
     = mset (map (\<lambda>(name, p). (name, rating_of C p)) players) \<and>
   (\<forall>v. filter (\<lambda>x. snd x = v) (snd (get_final_standings C players))
        = filter (\<lambda>x. snd x = v) (map (\<lambda>(name, p). (name, rating_of C p)) players)) \<and>
   (\<exists>registry history.
      simulate C r matches ([], []) = Inr (registry, history) \<and>
      map fst registry = rev (remdups (rev (names_of matches))))"
proof -
  obtain registry history where run: "simulate C r matches ([], []) = Inr (registry, history)"
    using simulate_total[of C r matches "([], [])"] by auto
  have "map fst registry = rev (remdups (rev (names_of matches)))"
    using keys_simulate[OF run] by (simp add: first_seen_remdups)
  with run show ?thesis
    by (simp add: get_final_standings_def Let_def sort_reverse_sorted sort_reverse_mset
          sort_reverse_stable)
qed

text \<open>
  C10: both reporters leave the registry as it was: the same entries in the same order,
  each with the same competitor state.
\<close>

theorem reporters_read_only:
  "fst (get_final_standings C players) = players \<and>
   fst (get_glicko2_standings_with_uncertainty C rd_of volatility_of players) = players"
  by (simp add: get_final_standings_def get_glicko2_standings_with_uncertainty_def Let_def)

end
